theory Spec2Isabelle
  imports Complex_Main "HOL-Library.Sublist" "HOL-Library.Log_Nat"
begin

section \<open>Data model\<close>

text \<open>
  The tracker keeps two pandas frames, \<open>expenses_df\<close> and \<open>budgets_df\<close>. Every frame the
  manager stores is built by \<open>pd.concat(..., ignore_index=True)\<close> or by
  \<open>reset_index(drop=True)\<close>, so its index is always the range \<open>0..n-1\<close>: a frame is
  modelled as the list of its rows, the label of a row being its position.

  Amounts are float64 values; a stored amount is a finite double, held as the rational
  number it is. What the float operations return is modelled in the section on float
  arithmetic. Timestamps are points on the integer time line (\<open>NaT\<close> is \<open>None\<close>
  where a column can hold it). Text is ASCII.
\<close>

type_synonym timestamp = int

record expense =
  amount :: rat
  date :: timestamp
  category :: string
  description :: string
  payment_method :: string
  tags :: string

record budget =
  b_category :: string
  b_amount :: rat
  period :: string
  start_date :: "timestamp option"
  end_date :: "timestamp option"

definition expense_columns :: "string list" where
  "expense_columns = [''amount'', ''date'', ''category'', ''description'', ''payment_method'', ''tags'']"

definition budget_columns :: "string list" where
  "budget_columns = [''category'', ''amount'', ''period'', ''start_date'', ''end_date'']"

text \<open>
  Python values that reach the manager through \<open>**kwargs\<close> and through the \<open>filters\<close>
  dictionary. \<open>Unmodelled\<close> marks an input on which the model says nothing (a cell value
  of another type than its column, a date given as text that pandas would have to parse,
  a regular expression outside the fragment modelled below); it is not an exception of
  the program. The other errors are the exceptions the program raises.
\<close>

datatype pyval = PNone | PNum rat | PDate timestamp | PStr string | PTuple pyval pyval

datatype error = IndexError | KeyError | Unmodelled

fun truthy :: "pyval \<Rightarrow> bool" where
  "truthy PNone = False"
| "truthy (PNum x) = (x \<noteq> 0)"
| "truthy (PDate d) = True"
| "truthy (PStr s) = (s \<noteq> [])"
| "truthy (PTuple a b) = True"

text \<open>\<open>pd.to_datetime\<close> on a value that already is a timestamp (or is \<open>None\<close>).\<close>

fun to_datetime :: "pyval \<Rightarrow> pyval option" where
  "to_datetime (PDate d) = Some (PDate d)"
| "to_datetime PNone = Some PNone"
| "to_datetime v = None"

section \<open>Expense store and budget store\<close>

text \<open>\<open>self.expenses_df.at[index, key] = value\<close> for a key that is a column.\<close>

definition set_expense_cell :: "string \<Rightarrow> pyval \<Rightarrow> expense \<Rightarrow> expense option" where
  "set_expense_cell key v e =
     (if key = ''amount'' then (case v of PNum a \<Rightarrow> Some (e\<lparr>amount := a\<rparr>) | _ \<Rightarrow> None)
      else if key = ''date'' then (case v of PDate d \<Rightarrow> Some (e\<lparr>date := d\<rparr>) | _ \<Rightarrow> None)
      else if key = ''category'' then (case v of PStr s \<Rightarrow> Some (e\<lparr>category := s\<rparr>) | _ \<Rightarrow> None)
      else if key = ''description'' then (case v of PStr s \<Rightarrow> Some (e\<lparr>description := s\<rparr>) | _ \<Rightarrow> None)
      else if key = ''payment_method'' then (case v of PStr s \<Rightarrow> Some (e\<lparr>payment_method := s\<rparr>) | _ \<Rightarrow> None)
      else if key = ''tags'' then (case v of PStr s \<Rightarrow> Some (e\<lparr>tags := s\<rparr>) | _ \<Rightarrow> None)
      else None)"

text \<open>
  The loop \<open>for key, value in kwargs.items()\<close> of \<open>edit_expense\<close>, at a row position that
  the caller has checked. The frame is mutated in place, so the result is the frame as
  the loop leaves it together with the error that stopped it, if any.
\<close>

fun edit_expense_loop :: "nat \<Rightarrow> (string \<times> pyval) list \<Rightarrow> expense list \<Rightarrow> error option \<times> expense list" where
  "edit_expense_loop i [] df = (None, df)"
| "edit_expense_loop i ((key, value) # kwargs) df =
     (if key \<in> set expense_columns then
        (case (if key = ''date'' then to_datetime value else Some value) of
           None \<Rightarrow> (Some Unmodelled, df)
         | Some v \<Rightarrow>
            (case set_expense_cell key v (df ! i) of
               None \<Rightarrow> (Some Unmodelled, df)
             | Some r \<Rightarrow> edit_expense_loop i kwargs (df[i := r])))
      else edit_expense_loop i kwargs df)"

definition edit_expense :: "int \<Rightarrow> (string \<times> pyval) list \<Rightarrow> expense list \<Rightarrow> error option \<times> expense list" where
  "edit_expense index kwargs df =
     (if index < 0 \<or> index \<ge> int (length df) then (Some IndexError, df)
      else edit_expense_loop (nat index) kwargs df)"

text \<open>
  \<open>df.drop(index).reset_index(drop=True)\<close>: the rows are paired with their labels
  \<open>0..n-1\<close>, the rows labelled \<open>index\<close> are dropped, and the labels are discarded
  (the new frame is labelled \<open>0..n-2\<close> again).
\<close>

definition drop_reset_index :: "int \<Rightarrow> 'r list \<Rightarrow> 'r list" where
  "drop_reset_index index df =
     map snd (filter (\<lambda>(label, row). int label \<noteq> index) (enumerate 0 df))"

definition delete_expense :: "int \<Rightarrow> expense list \<Rightarrow> error option \<times> expense list" where
  "delete_expense index df =
     (if index < 0 \<or> index \<ge> int (length df) then (Some IndexError, df)
      else (None, drop_reset_index index df))"

text \<open>\<open>self.budgets_df.at[index, key] = value\<close> for a key that is a column.\<close>

definition set_budget_cell :: "string \<Rightarrow> pyval \<Rightarrow> budget \<Rightarrow> budget option" where
  "set_budget_cell key v b =
     (if key = ''category'' then (case v of PStr s \<Rightarrow> Some (b\<lparr>b_category := s\<rparr>) | _ \<Rightarrow> None)
      else if key = ''amount'' then (case v of PNum a \<Rightarrow> Some (b\<lparr>b_amount := a\<rparr>) | _ \<Rightarrow> None)
      else if key = ''period'' then (case v of PStr s \<Rightarrow> Some (b\<lparr>period := s\<rparr>) | _ \<Rightarrow> None)
      else if key = ''start_date'' then
        (case v of PDate d \<Rightarrow> Some (b\<lparr>start_date := Some d\<rparr>)
                 | PNone \<Rightarrow> Some (b\<lparr>start_date := None\<rparr>) | _ \<Rightarrow> None)
      else if key = ''end_date'' then
        (case v of PDate d \<Rightarrow> Some (b\<lparr>end_date := Some d\<rparr>)
                 | PNone \<Rightarrow> Some (b\<lparr>end_date := None\<rparr>) | _ \<Rightarrow> None)
      else None)"

fun edit_budget_loop :: "nat \<Rightarrow> (string \<times> pyval) list \<Rightarrow> budget list \<Rightarrow> error option \<times> budget list" where
  "edit_budget_loop i [] df = (None, df)"
| "edit_budget_loop i ((key, value) # kwargs) df =
     (if key \<in> set budget_columns then
        (case (if key \<in> set [''start_date'', ''end_date'']
               then (if truthy value then to_datetime value else Some PNone)
               else Some value) of
           None \<Rightarrow> (Some Unmodelled, df)
         | Some v \<Rightarrow>
            (case set_budget_cell key v (df ! i) of
               None \<Rightarrow> (Some Unmodelled, df)
             | Some r \<Rightarrow> edit_budget_loop i kwargs (df[i := r])))
      else edit_budget_loop i kwargs df)"

definition edit_budget :: "int \<Rightarrow> (string \<times> pyval) list \<Rightarrow> budget list \<Rightarrow> error option \<times> budget list" where
  "edit_budget index kwargs df =
     (if index < 0 \<or> index \<ge> int (length df) then (Some IndexError, df)
      else edit_budget_loop (nat index) kwargs df)"

definition delete_budget :: "int \<Rightarrow> budget list \<Rightarrow> error option \<times> budget list" where
  "delete_budget index df =
     (if index < 0 \<or> index \<ge> int (length df) then (Some IndexError, df)
      else (None, drop_reset_index index df))"

section \<open>Float arithmetic\<close>

text \<open>
  The amount columns are float64. A stored amount is a finite double, held as the rational
  number it is exactly. The result of an operation is a double again, an infinity or
  \<open>NaN\<close>: the exact result rounded to the nearest double, ties to the even significand
  (53 bits, exponents from -1022 to 1023, subnormals below, an infinity from \<open>2^1024\<close>
  on). The two zeros are not told apart, so a stored zero divides like \<open>+0.0\<close>. Dividing
  floats in pandas raises nothing: \<open>x / 0\<close> is an infinity with the sign of \<open>x\<close>, and
  \<open>0 / 0\<close> is \<open>NaN\<close>.
\<close>

datatype fval = Fin rat | PInf | NInf | NaN

definition round_half_even :: "rat \<Rightarrow> int" where
  "round_half_even x =
     (let f = \<lfloor>x\<rfloor>; r = x - of_int f
      in if r < 1 / 2 then f else if r > 1 / 2 then f + 1 else if even f then f else f + 1)"

definition pow2 :: "int \<Rightarrow> rat" where
  "pow2 k = (if 0 \<le> k then 2 ^ nat k else 1 / 2 ^ nat (- k))"

text \<open>The exponent \<open>e\<close> with \<open>2^e \<le> a < 2^(e+1)\<close>, for a positive \<open>a\<close>.\<close>

definition binade :: "rat \<Rightarrow> int" where
  "binade a =
     (case quotient_of a of (p, q) \<Rightarrow>
        (let d = bitlen p - bitlen q in if pow2 d \<le> a then d else d - 1))"

definition round64 :: "rat \<Rightarrow> fval" where
  "round64 x =
     (if x = 0 then Fin 0
      else
        (let a = \<bar>x\<bar>;
             e = max (binade a) (- 1022);
             ulp = pow2 (e - 52);
             r = of_int (round_half_even (a / ulp)) * ulp
         in if pow2 1024 \<le> r then (if 0 < x then PInf else NInf)
            else Fin (if 0 < x then r else - r)))"

fun fneg :: "fval \<Rightarrow> fval" where
  "fneg (Fin a) = Fin (- a)"
| "fneg PInf = NInf"
| "fneg NInf = PInf"
| "fneg NaN = NaN"

fun fadd :: "fval \<Rightarrow> fval \<Rightarrow> fval" where
  "fadd (Fin a) (Fin b) = round64 (a + b)"
| "fadd NaN v = NaN"
| "fadd v NaN = NaN"
| "fadd PInf NInf = NaN"
| "fadd NInf PInf = NaN"
| "fadd PInf v = PInf"
| "fadd v PInf = PInf"
| "fadd NInf v = NInf"
| "fadd v NInf = NInf"

definition fsub :: "fval \<Rightarrow> fval \<Rightarrow> fval" where
  "fsub a b = fadd a (fneg b)"

fun fmul :: "fval \<Rightarrow> fval \<Rightarrow> fval" where
  "fmul (Fin a) (Fin b) = round64 (a * b)"
| "fmul NaN v = NaN"
| "fmul v NaN = NaN"
| "fmul PInf (Fin b) = (if b = 0 then NaN else if 0 < b then PInf else NInf)"
| "fmul NInf (Fin b) = (if b = 0 then NaN else if 0 < b then NInf else PInf)"
| "fmul (Fin a) PInf = (if a = 0 then NaN else if 0 < a then PInf else NInf)"
| "fmul (Fin a) NInf = (if a = 0 then NaN else if 0 < a then NInf else PInf)"
| "fmul PInf PInf = PInf"
| "fmul PInf NInf = NInf"
| "fmul NInf PInf = NInf"
| "fmul NInf NInf = PInf"

fun fdiv :: "fval \<Rightarrow> fval \<Rightarrow> fval" where
  "fdiv (Fin a) (Fin b) =
     (if b \<noteq> 0 then round64 (a / b)
      else if 0 < a then PInf else if a < 0 then NInf else NaN)"
| "fdiv NaN v = NaN"
| "fdiv v NaN = NaN"
| "fdiv (Fin a) v = Fin 0"
| "fdiv PInf (Fin b) = (if 0 \<le> b then PInf else NInf)"
| "fdiv NInf (Fin b) = (if 0 \<le> b then NInf else PInf)"
| "fdiv PInf PInf = NaN"
| "fdiv PInf NInf = NaN"
| "fdiv NInf PInf = NaN"
| "fdiv NInf NInf = NaN"

text \<open>The comparison \<open>a > b\<close>; it is false when either side is \<open>NaN\<close>.\<close>

fun fgt :: "fval \<Rightarrow> fval \<Rightarrow> bool" where
  "fgt (Fin a) (Fin b) = (b < a)"
| "fgt PInf (Fin b) = True"
| "fgt PInf NInf = True"
| "fgt (Fin a) NInf = True"
| "fgt v w = False"

text \<open>
  \<open>Series.round(1)\<close> is numpy's rounding to one decimal: the value times ten, rounded to
  the nearest integer with ties to even, divided by ten, each step a float operation.
\<close>

fun rint :: "fval \<Rightarrow> fval" where
  "rint (Fin x) = Fin (of_int (round_half_even x))"
| "rint v = v"

definition round_1 :: "fval \<Rightarrow> fval" where
  "round_1 v = fdiv (rint (fmul v (Fin 10))) (Fin 10)"

fun fillna_0 :: "fval \<Rightarrow> fval" where
  "fillna_0 NaN = Fin 0"
| "fillna_0 v = v"

text \<open>
  \<open>Series.sum()\<close> adds the amounts of the selected rows in an order that numpy chooses;
  the order is not the program's, so the sum is the parameter \<open>series_sum\<close> of the
  engine. \<open>sequential_sum\<close> adds from left to right, starting from zero; for a column
  of at most two rows every order of the additions gives this result.
\<close>

definition sequential_sum :: "rat list \<Rightarrow> fval" where
  "sequential_sum xs = foldl (\<lambda>acc x. fadd acc (Fin x)) (Fin 0) xs"

section \<open>Budget evaluation engine\<close>

text \<open>
  Both \<open>get_alerts\<close> and \<open>get_budget_vs_actual\<close> build, for one budget row, the boolean
  mask \<open>(expenses_df['date'] >= start) & (expenses_df['date'] <= end)\<close> with
  \<open>end = budget['end_date'] if pd.notnull(budget['end_date']) else today\<close>. A comparison
  with \<open>NaT\<close> is false.
\<close>

definition window_end :: "timestamp \<Rightarrow> budget \<Rightarrow> timestamp" where
  "window_end today budget = (case end_date budget of Some e \<Rightarrow> e | None \<Rightarrow> today)"

definition mask :: "timestamp \<Rightarrow> budget \<Rightarrow> expense \<Rightarrow> bool" where
  "mask today budget e =
     ((case start_date budget of Some start \<Rightarrow> date e \<ge> start | None \<Rightarrow> False)
      \<and> date e \<le> window_end today budget)"

text \<open>
  An alert is the message \<open>Alert: Overspent in {cat} (budget: {budget_amount}, spent:
  {spent})\<close>; it is modelled by the three values the message is built from.
\<close>

type_synonym alert = "string \<times> rat \<times> fval"

fun get_alerts_loop :: "(rat list \<Rightarrow> fval) \<Rightarrow> timestamp \<Rightarrow> expense list \<Rightarrow> budget list \<Rightarrow> alert list \<Rightarrow> alert list" where
  "get_alerts_loop series_sum today expenses_df [] alerts = alerts"
| "get_alerts_loop series_sum today expenses_df (budget # rest) alerts =
     (let cat = b_category budget;
          budget_amount = b_amount budget;
          spent = (if cat = ''overall''
                   then series_sum (map amount (filter (mask today budget) expenses_df))
                   else series_sum (map amount
                          (filter (\<lambda>e. mask today budget e \<and> category e = cat) expenses_df)))
      in get_alerts_loop series_sum today expenses_df rest
           (if fgt spent (Fin budget_amount) then alerts @ [(cat, budget_amount, spent)]
            else alerts))"

definition get_alerts :: "(rat list \<Rightarrow> fval) \<Rightarrow> timestamp \<Rightarrow> expense list \<Rightarrow> budget list \<Rightarrow> alert list" where
  "get_alerts series_sum today expenses_df budgets_df =
     get_alerts_loop series_sum today expenses_df budgets_df []"

text \<open>
  The terminal version keeps its budgets as a list of dictionaries. \<open>set_budget\<close> stores
  Python's \<open>None\<close> for an absent end date; \<open>_load_budgets\<close> reads the budgets back from
  \<open>budgets.csv\<close> through \<open>pd.to_datetime\<close>, which turns an empty cell into \<open>NaT\<close>.
  \<open>None\<close> is false in a condition, \<open>NaT\<close> and every timestamp are true.
\<close>

datatype date_cell = PyNone | NaT | Timestamp timestamp

record budget_dict =
  d_category :: string
  d_amount :: rat
  d_period :: string
  d_start_date :: "timestamp option"
  d_end_date :: date_cell

fun cell_truthy :: "date_cell \<Rightarrow> bool" where
  "cell_truthy PyNone = False"
| "cell_truthy NaT = True"
| "cell_truthy (Timestamp t) = True"

text \<open>\<open>pd.to_datetime\<close> on a cell; the result \<open>None\<close> is \<open>NaT\<close>.\<close>

fun cell_to_datetime :: "date_cell \<Rightarrow> timestamp option" where
  "cell_to_datetime (Timestamp t) = Some t"
| "cell_to_datetime c = None"

text \<open>
  The lines printed by one call of \<open>_check_budget_alerts\<close>, in order; \<open>now\<close> is
  \<open>datetime.now()\<close>.
\<close>

fun check_budget_alerts :: "(rat list \<Rightarrow> fval) \<Rightarrow> timestamp \<Rightarrow> expense list \<Rightarrow> budget_dict list \<Rightarrow> alert list" where
  "check_budget_alerts series_sum now df [] = []"
| "check_budget_alerts series_sum now df (budget # rest) =
     (let cat = d_category budget;
          period_amount = d_amount budget;
          start = d_start_date budget;
          w_end = (if cell_truthy (d_end_date budget) then cell_to_datetime (d_end_date budget)
                   else Some now);
          in_window = (\<lambda>e. (case start of Some s \<Rightarrow> date e \<ge> s | None \<Rightarrow> False)
                           \<and> (case w_end of Some t \<Rightarrow> date e \<le> t | None \<Rightarrow> False));
          spent = (if cat = ''overall''
                   then series_sum (map amount (filter in_window df))
                   else series_sum (map amount
                          (filter (\<lambda>e. in_window e \<and> category e = cat) df)))
      in (if fgt spent (Fin period_amount) then [(cat, period_amount, spent)] else [])
         @ check_budget_alerts series_sum now df rest)"

record comparison_row =
  c_category :: string
  c_budget :: rat
  c_actual :: fval
  c_difference :: fval
  c_percentage :: fval

text \<open>The row filter that selects \<open>active_budgets\<close>.\<close>

definition is_active :: "timestamp \<Rightarrow> budget \<Rightarrow> bool" where
  "is_active today budget =
     (period budget = ''monthly''
      \<and> (case start_date budget of Some s \<Rightarrow> s \<le> today | None \<Rightarrow> False)
      \<and> ((case end_date budget of Some e \<Rightarrow> e \<ge> today | None \<Rightarrow> False) \<or> end_date budget = None))"

text \<open>The loop that fills \<open>actual_list\<close> with one \<open>{category, actual}\<close> entry per active budget.\<close>

fun actual_list_loop :: "(rat list \<Rightarrow> fval) \<Rightarrow> timestamp \<Rightarrow> expense list \<Rightarrow> budget list \<Rightarrow> (string \<times> fval) list \<Rightarrow> (string \<times> fval) list" where
  "actual_list_loop series_sum today expenses_df [] actual_list = actual_list"
| "actual_list_loop series_sum today expenses_df (budget # rest) actual_list =
     (if b_category budget = ''overall'' then
        (let spent = series_sum (map amount (filter (mask today budget) expenses_df))
         in actual_list_loop series_sum today expenses_df rest
              (actual_list @ [(''Overall'', spent)]))
      else
        (let spent = series_sum (map amount
               (filter (\<lambda>e. mask today budget e \<and> category e = b_category budget) expenses_df))
         in actual_list_loop series_sum today expenses_df rest
              (actual_list @ [(b_category budget, spent)])))"

text \<open>
  \<open>left.merge(right, on='category', how='left')\<close>: the left rows in order, each joined
  with every right row of the same category, in the right frame's order; a left row
  without a partner is kept once with \<open>NaN\<close> for its \<open>actual\<close>.
\<close>

definition merge_left :: "(string \<times> rat) list \<Rightarrow> (string \<times> fval) list \<Rightarrow> (string \<times> rat \<times> fval) list" where
  "merge_left left right =
     concat (map (\<lambda>(cat, amt).
        (let partners = filter (\<lambda>(c, actual). c = cat) right
         in if partners = [] then [(cat, amt, NaN)]
            else map (\<lambda>(c, actual). (cat, amt, actual)) partners)) left)"

text \<open>The column computations that follow the merge, for one merged row.\<close>

definition finish_row :: "string \<times> rat \<times> fval \<Rightarrow> comparison_row" where
  "finish_row row =
     (case row of (cat, budget, merged_actual) \<Rightarrow>
        (let actual = fillna_0 merged_actual;
             difference = fsub actual (Fin budget);
             percentage = fillna_0 (round_1 (fmul (fdiv actual (Fin budget)) (Fin 100)))
         in \<lparr>c_category = (if cat = ''overall'' then ''Overall'' else cat),
             c_budget = budget, c_actual = actual, c_difference = difference,
             c_percentage = percentage\<rparr>))"

text \<open>An empty frame (\<open>pd.DataFrame()\<close>) is the empty list of rows.\<close>

definition get_budget_vs_actual :: "(rat list \<Rightarrow> fval) \<Rightarrow> timestamp \<Rightarrow> expense list \<Rightarrow> budget list \<Rightarrow> comparison_row list" where
  "get_budget_vs_actual series_sum today expenses_df budgets_df =
     (if budgets_df = [] \<or> expenses_df = [] then []
      else
        (let active_budgets = filter (is_active today) budgets_df
         in if active_budgets = [] then []
            else
              (let actual_df = actual_list_loop series_sum today expenses_df active_budgets [];
                   comparison = merge_left (map (\<lambda>b. (b_category b, b_amount b)) active_budgets) actual_df
               in map finish_row comparison)))"

subsection \<open>The engine as the specification words it\<close>

text \<open>
  The evaluation window of a budget is \<open>[start_date, end_date]\<close>, with today in place of an
  absent end date; a budget whose start date is missing has an empty window. A budget
  selects the expenses dated in its window, all of them when its category is \<open>overall\<close>
  and those of its own category otherwise; \<open>spent\<close> is the sum of their amounts, as the
  float column sums them.
\<close>

definition spec_selects :: "timestamp \<Rightarrow> budget \<Rightarrow> expense \<Rightarrow> bool" where
  "spec_selects today b e =
     ((case start_date b of Some s \<Rightarrow> s \<le> date e | None \<Rightarrow> False)
      \<and> date e \<le> (case end_date b of Some d \<Rightarrow> d | None \<Rightarrow> today)
      \<and> (b_category b = ''overall'' \<or> category e = b_category b))"

definition spec_spent :: "(rat list \<Rightarrow> fval) \<Rightarrow> timestamp \<Rightarrow> expense list \<Rightarrow> budget \<Rightarrow> fval" where
  "spec_spent series_sum today expenses b =
     series_sum (map amount (filter (spec_selects today b) expenses))"



text \<open>
  A budget dictionary of the terminal version read as a budget record: its end date is
  the timestamp it holds, if any.
\<close>

definition as_budget :: "budget_dict \<Rightarrow> budget" where
  "as_budget d =
     \<lparr>b_category = d_category d, b_amount = d_amount d, period = d_period d,
      start_date = d_start_date d, end_date = cell_to_datetime (d_end_date d)\<rparr>"

section \<open>Viewing: filters and sorting\<close>

text \<open>
  \<open>Series.str.contains(pat, case=..., na=False)\<close> treats \<open>pat\<close> as a regular expression
  and searches each cell for a match. The fragment modelled here is the patterns made of
  ordinary characters and the dot; a pattern with any other metacharacter is outside the
  model. The dot matches every character but the newline; with \<open>case=False\<close> letters match
  regardless of case.
\<close>

definition regex_special :: "char list" where
  "regex_special = ''.^$*+?{}[]|()'' @ [CHR 0x5C]"

datatype rx = Lit char | AnyChar

fun re_compile :: "string \<Rightarrow> rx list option" where
  "re_compile [] = Some []"
| "re_compile (c # cs) =
     (if c = CHR ''.'' then map_option ((#) AnyChar) (re_compile cs)
      else if c \<in> set regex_special then None
      else map_option ((#) (Lit c)) (re_compile cs))"

definition ascii_lower :: "char \<Rightarrow> char" where
  "ascii_lower c =
     (case map_of (zip ''ABCDEFGHIJKLMNOPQRSTUVWXYZ'' ''abcdefghijklmnopqrstuvwxyz'') c of
        Some l \<Rightarrow> l
      | None \<Rightarrow> c)"

fun rx_matches :: "bool \<Rightarrow> rx \<Rightarrow> char \<Rightarrow> bool" where
  "rx_matches case_sensitive (Lit c) d =
     (if case_sensitive then c = d else ascii_lower c = ascii_lower d)"
| "rx_matches case_sensitive AnyChar d = (d \<noteq> CHR 0x0A)"

fun match_here :: "bool \<Rightarrow> rx list \<Rightarrow> string \<Rightarrow> bool" where
  "match_here case_sensitive [] s = True"
| "match_here case_sensitive (r # rs) [] = False"
| "match_here case_sensitive (r # rs) (d # ds) =
     (rx_matches case_sensitive r d \<and> match_here case_sensitive rs ds)"

fun re_search :: "bool \<Rightarrow> rx list \<Rightarrow> string \<Rightarrow> bool" where
  "re_search case_sensitive rs [] = match_here case_sensitive rs []"
| "re_search case_sensitive rs (d # ds) =
     (match_here case_sensitive rs (d # ds) \<or> re_search case_sensitive rs ds)"

text \<open>The row selections \<open>df_view[...]\<close> of the five filters.\<close>

fun select_date_range :: "pyval option \<Rightarrow> pyval option \<Rightarrow> expense list \<Rightarrow> error + expense list" where
  "select_date_range (Some (PDate s)) (Some (PDate e)) df_view =
     Inr (filter (\<lambda>r. date r \<ge> s \<and> date r \<le> e) df_view)"
| "select_date_range _ _ df_view = Inl Unmodelled"

fun select_amount_range :: "pyval \<Rightarrow> pyval \<Rightarrow> expense list \<Rightarrow> error + expense list" where
  "select_amount_range (PNum min_amt) (PNum max_amt) df_view =
     Inr (filter (\<lambda>r. amount r \<ge> min_amt \<and> amount r \<le> max_amt) df_view)"
| "select_amount_range _ _ df_view = Inl Unmodelled"

fun select_equal :: "(expense \<Rightarrow> string) \<Rightarrow> pyval \<Rightarrow> expense list \<Rightarrow> error + expense list" where
  "select_equal column (PStr s) df_view = Inr (filter (\<lambda>r. column r = s) df_view)"
| "select_equal column _ df_view = Inl Unmodelled"

fun select_contains :: "(expense \<Rightarrow> string) \<Rightarrow> bool \<Rightarrow> pyval \<Rightarrow> expense list \<Rightarrow> error + expense list" where
  "select_contains column case_sensitive (PStr pat) df_view =
     (case re_compile pat of
        None \<Rightarrow> Inl Unmodelled
      | Some rs \<Rightarrow> Inr (filter (\<lambda>r. re_search case_sensitive rs (column r)) df_view))"
| "select_contains column case_sensitive _ df_view = Inl Unmodelled"

text \<open>One round of the loop \<open>for key, value in filters.items()\<close>, browser version.\<close>

fun apply_filter :: "string \<times> pyval \<Rightarrow> expense list \<Rightarrow> error + expense list" where
  "apply_filter (key, value) df_view =
     (if key = ''date_range'' \<and> truthy value then
        (case value of
           PTuple start w_end \<Rightarrow>
             if truthy start \<and> truthy w_end
             then select_date_range (to_datetime start) (to_datetime w_end) df_view
             else Inr df_view
         | _ \<Rightarrow> Inl Unmodelled)
      else if key = ''amount_range'' \<and> truthy value then
        (case value of
           PTuple min_amt max_amt \<Rightarrow>
             if min_amt \<noteq> PNone \<and> max_amt \<noteq> PNone
             then select_amount_range min_amt max_amt df_view
             else Inr df_view
         | _ \<Rightarrow> Inl Unmodelled)
      else if key = ''category'' \<and> truthy value then select_contains category False value df_view
      else if key = ''payment_method'' \<and> truthy value then select_equal payment_method value df_view
      else if key = ''tags'' \<and> truthy value then select_contains tags False value df_view
      else Inr df_view)"

fun apply_filters :: "(string \<times> pyval) list \<Rightarrow> expense list \<Rightarrow> error + expense list" where
  "apply_filters [] df_view = Inr df_view"
| "apply_filters (kv # rest) df_view =
     (case apply_filter kv df_view of Inl e \<Rightarrow> Inl e | Inr v \<Rightarrow> apply_filters rest v)"

text \<open>
  \<open>df_view.sort_values(by=sort_by)\<close> raises \<open>KeyError\<close> when \<open>sort_by\<close> names no
  column. For a column it reorders the rows with numpy's default sort; that routine is
  not part of the program, so it is the parameter \<open>sort_values\<close> of the model.
\<close>

definition sort_view :: "(string \<Rightarrow> expense list \<Rightarrow> expense list) \<Rightarrow> string option \<Rightarrow> expense list \<Rightarrow> error + expense list" where
  "sort_view sort_values sort_by df_view =
     (case sort_by of
        None \<Rightarrow> Inr df_view
      | Some by \<Rightarrow>
          if by = [] then Inr df_view
          else if by \<in> set expense_columns then Inr (sort_values by df_view)
          else Inl KeyError)"

definition view_expenses :: "(string \<Rightarrow> expense list \<Rightarrow> expense list) \<Rightarrow> (string \<times> pyval) list option \<Rightarrow> string option \<Rightarrow> expense list \<Rightarrow> error + expense list" where
  "view_expenses sort_values filters sort_by expenses_df =
     (case (case filters of None \<Rightarrow> Inr expenses_df | Some fs \<Rightarrow> apply_filters fs expenses_df) of
        Inl e \<Rightarrow> Inl e
      | Inr df_view \<Rightarrow> sort_view sort_values sort_by df_view)"

text \<open>The same loop in the terminal version: no guard on the values, categories compared
  for equality, tags searched with the case kept.\<close>

fun apply_filter_terminal :: "string \<times> pyval \<Rightarrow> expense list \<Rightarrow> error + expense list" where
  "apply_filter_terminal (key, value) df_view =
     (if key = ''date_range'' then
        (case value of
           PTuple start w_end \<Rightarrow> select_date_range (to_datetime start) (to_datetime w_end) df_view
         | _ \<Rightarrow> Inl Unmodelled)
      else if key = ''amount_range'' then
        (case value of
           PTuple min_amt max_amt \<Rightarrow> select_amount_range min_amt max_amt df_view
         | _ \<Rightarrow> Inl Unmodelled)
      else if key = ''category'' then select_equal category value df_view
      else if key = ''payment_method'' then select_equal payment_method value df_view
      else if key = ''tags'' then select_contains tags True value df_view
      else Inr df_view)"

fun apply_filters_terminal :: "(string \<times> pyval) list \<Rightarrow> expense list \<Rightarrow> error + expense list" where
  "apply_filters_terminal [] df_view = Inr df_view"
| "apply_filters_terminal (kv # rest) df_view =
     (case apply_filter_terminal kv df_view of Inl e \<Rightarrow> Inl e | Inr v \<Rightarrow> apply_filters_terminal rest v)"

definition view_expenses_terminal :: "(string \<Rightarrow> expense list \<Rightarrow> expense list) \<Rightarrow> (string \<times> pyval) list option \<Rightarrow> string option \<Rightarrow> expense list \<Rightarrow> error + expense list" where
  "view_expenses_terminal sort_values filters sort_by df =
     (case (case filters of None \<Rightarrow> Inr df | Some fs \<Rightarrow> apply_filters_terminal fs df) of
        Inl e \<Rightarrow> Inl e
      | Inr df_view \<Rightarrow> sort_view sort_values sort_by df_view)"

subsection \<open>The filters as the specification words them\<close>

text \<open>
  The five supported filters, the dictionary entry that supplies each of them, and the
  predicate each stands for: a date in the inclusive range, an amount in the inclusive
  range, a category that contains the text regardless of case, a payment method equal to
  the text, tags that contain the text regardless of case.
\<close>

datatype filter_spec =
    DateRange timestamp timestamp
  | AmountRange rat rat
  | Category string
  | PaymentMethod string
  | Tags string

fun entry :: "filter_spec \<Rightarrow> string \<times> pyval" where
  "entry (DateRange s t) = (''date_range'', PTuple (PDate s) (PDate t))"
| "entry (AmountRange lo hi) = (''amount_range'', PTuple (PNum lo) (PNum hi))"
| "entry (Category c) = (''category'', PStr c)"
| "entry (PaymentMethod p) = (''payment_method'', PStr p)"
| "entry (Tags t) = (''tags'', PStr t)"

definition ci_substring :: "string \<Rightarrow> string \<Rightarrow> bool" where
  "ci_substring pat s = sublist (map ascii_lower pat) (map ascii_lower s)"

fun satisfies :: "filter_spec \<Rightarrow> expense \<Rightarrow> bool" where
  "satisfies (DateRange s t) e = (s \<le> date e \<and> date e \<le> t)"
| "satisfies (AmountRange lo hi) e = (lo \<le> amount e \<and> amount e \<le> hi)"
| "satisfies (Category c) e = ci_substring c (category e)"
| "satisfies (PaymentMethod p) e = (payment_method e = p)"
| "satisfies (Tags t) e = ci_substring t (tags e)"

text \<open>
  What the terminal version selects instead: a category equal to the text, and tags that
  contain the text with its case.
\<close>

fun satisfies_terminal :: "filter_spec \<Rightarrow> expense \<Rightarrow> bool" where
  "satisfies_terminal (Category c) e = (category e = c)"
| "satisfies_terminal (Tags t) e = sublist t (tags e)"
| "satisfies_terminal f e = satisfies f e"

text \<open>
  A filter text is plain when it has no regular-expression metacharacter; a payment
  method filter is supplied when its text is not empty.
\<close>

fun plain :: "filter_spec \<Rightarrow> bool" where
  "plain (Category c) = (\<forall>ch \<in> set c. ch \<notin> set regex_special)"
| "plain (Tags t) = (\<forall>ch \<in> set t. ch \<notin> set regex_special)"
| "plain (PaymentMethod p) = (p \<noteq> [])"
| "plain f = True"

definition filter_keys :: "string list" where
  "filter_keys = [''date_range'', ''amount_range'', ''category'', ''payment_method'', ''tags'']"

section \<open>Properties of the stores\<close>

lemma edit_expense_loop_no_IndexError:
  "fst (edit_expense_loop i kwargs df) \<noteq> Some IndexError"
  by (induction i kwargs df rule: edit_expense_loop.induct) (auto split: option.splits)

lemma edit_budget_loop_no_IndexError:
  "fst (edit_budget_loop i kwargs df) \<noteq> Some IndexError"
  by (induction i kwargs df rule: edit_budget_loop.induct) (auto split: option.splits)

lemma filter_enumerate_above:
  "n < m \<Longrightarrow> filter (\<lambda>(label, row). label \<noteq> n) (enumerate m xs) = enumerate m xs"
  by (induction xs arbitrary: m) auto

lemma drop_label_enumerate:
  "map snd (filter (\<lambda>(label, row). label \<noteq> n + i) (enumerate n xs)) = take i xs @ drop (Suc i) xs"
proof (induction xs arbitrary: n i)
  case Nil
  then show ?case by simp
next
  case (Cons x xs)
  show ?case
  proof (cases i)
    case 0
    then show ?thesis by (simp add: filter_enumerate_above)
  next
    case (Suc k)
    have "map snd (filter (\<lambda>(label, row). label \<noteq> Suc n + k) (enumerate (Suc n) xs)) = take k xs @ drop (Suc k) xs"
      by (rule Cons.IH)
    with Suc show ?thesis by simp
  qed
qed

lemma drop_reset_index_take_drop:
  assumes "0 \<le> index"
  shows "drop_reset_index index df = take (nat index) df @ drop (Suc (nat index)) df"
proof -
  have "(\<lambda>(label, row). int label \<noteq> index) = (\<lambda>(label::nat, row::'a). label \<noteq> 0 + nat index)"
    using assms by (auto simp: fun_eq_iff)
  then show ?thesis
    unfolding drop_reset_index_def by (simp only: drop_label_enumerate)
qed

lemma drop_reset_index_compacts:
  assumes "0 \<le> index" "index < int (length df)"
  shows "length (drop_reset_index index df) = length df - 1"
    and "j < nat index \<Longrightarrow> drop_reset_index index df ! j = df ! j"
    and "nat index \<le> j \<Longrightarrow> j < length df - 1 \<Longrightarrow> drop_reset_index index df ! j = df ! (j + 1)"
proof -
  let ?i = "nat index"
  have i: "?i < length df" using assms by auto
  have eq: "drop_reset_index index df = take ?i df @ drop (Suc ?i) df"
    by (rule drop_reset_index_take_drop[OF assms(1)])
  show "length (drop_reset_index index df) = length df - 1"
    using i by (simp add: eq)
  show "drop_reset_index index df ! j = df ! j" if "j < ?i"
    using that i by (simp add: eq nth_append)
  show "drop_reset_index index df ! j = df ! (j + 1)" if "?i \<le> j" "j < length df - 1"
    using that i by (simp add: eq nth_append min_def)
qed

lemma edit_expense_loop_length:
  "length (snd (edit_expense_loop i kwargs df)) = length df"
  by (induction i kwargs df rule: edit_expense_loop.induct) (auto split: option.splits)

lemma edit_expense_loop_others:
  "j \<noteq> i \<Longrightarrow> snd (edit_expense_loop i kwargs df) ! j = df ! j"
  by (induction i kwargs df rule: edit_expense_loop.induct) (auto split: option.splits)

lemma edit_expense_loop_skips_unknown:
  "edit_expense_loop i kwargs df =
   edit_expense_loop i (filter (\<lambda>(key, value). key \<in> set expense_columns) kwargs) df"
  by (induction i kwargs df rule: edit_expense_loop.induct) (auto split: option.splits)

lemma edit_expense_loop_all_unknown:
  "\<forall>(key, value) \<in> set kwargs. key \<notin> set expense_columns \<Longrightarrow> edit_expense_loop i kwargs df = (None, df)"
  by (induction i kwargs df rule: edit_expense_loop.induct) (auto split: option.splits)

lemma set_expense_cell_frame:
  assumes "set_expense_cell key v e = Some r"
  shows "key \<noteq> ''amount'' \<Longrightarrow> amount r = amount e"
    and "key \<noteq> ''date'' \<Longrightarrow> date r = date e"
    and "key \<noteq> ''category'' \<Longrightarrow> category r = category e"
    and "key \<noteq> ''description'' \<Longrightarrow> description r = description e"
    and "key \<noteq> ''payment_method'' \<Longrightarrow> payment_method r = payment_method e"
    and "key \<noteq> ''tags'' \<Longrightarrow> tags r = tags e"
  using assms by (auto simp: set_expense_cell_def split: if_splits pyval.splits)

lemma edit_expense_loop_keeps:
  assumes "i < length df"
    and "\<And>key v e r. key \<in> fst ` set kwargs \<Longrightarrow> set_expense_cell key v e = Some r \<Longrightarrow> f r = f e"
  shows "f (snd (edit_expense_loop i kwargs df) ! i) = f (df ! i)"
  using assms
proof (induction i kwargs df rule: edit_expense_loop.induct)
  case (1 i df)
  then show ?case by simp
next
  case (2 i key "value" kwargs df)
  have rest: "\<And>k v e r. k \<in> fst ` set kwargs \<Longrightarrow> set_expense_cell k v e = Some r \<Longrightarrow> f r = f e"
  proof -
    fix k v e r
    assume "k \<in> fst ` set kwargs" and "set_expense_cell k v e = Some r"
    then show "f r = f e" using "2.prems"(2)[of k v e r] by simp
  qed
  have here: "\<And>v e r. set_expense_cell key v e = Some r \<Longrightarrow> f r = f e"
  proof -
    fix v e r
    assume "set_expense_cell key v e = Some r"
    then show "f r = f e" using "2.prems"(2)[of key v e r] by simp
  qed
  show ?case
  proof (cases "key \<in> set expense_columns")
    case False
    then show ?thesis using "2.IH"(2)[OF False "2.prems"(1) rest] by simp
  next
    case True
    show ?thesis
    proof (cases "if key = ''date'' then to_datetime value else Some value")
      case None
      then show ?thesis using True by simp
    next
      case (Some v)
      show ?thesis
      proof (cases "set_expense_cell key v (df ! i)")
        case None
        then show ?thesis using True Some by simp
      next
        case (Some r)
        have len: "i < length (df[i := r])" using "2.prems"(1) by simp
        have "f (snd (edit_expense_loop i kwargs (df[i := r])) ! i) = f (df[i := r] ! i)"
          using "2.IH"(1)[OF True \<open>(if key = ''date'' then to_datetime value else Some value) = Some v\<close> Some len rest] .
        also have "\<dots> = f r" using "2.prems"(1) by simp
        also have "\<dots> = f (df ! i)" using here[OF Some] .
        finally show ?thesis
          using True \<open>(if key = ''date'' then to_datetime value else Some value) = Some v\<close> Some by simp
      qed
    qed
  qed
qed

lemma edit_expense_loop_frame:
  assumes "i < length df"
  shows "''amount'' \<notin> fst ` set kwargs \<Longrightarrow> amount (snd (edit_expense_loop i kwargs df) ! i) = amount (df ! i)"
    and "''date'' \<notin> fst ` set kwargs \<Longrightarrow> date (snd (edit_expense_loop i kwargs df) ! i) = date (df ! i)"
    and "''category'' \<notin> fst ` set kwargs \<Longrightarrow> category (snd (edit_expense_loop i kwargs df) ! i) = category (df ! i)"
    and "''description'' \<notin> fst ` set kwargs \<Longrightarrow> description (snd (edit_expense_loop i kwargs df) ! i) = description (df ! i)"
    and "''payment_method'' \<notin> fst ` set kwargs \<Longrightarrow> payment_method (snd (edit_expense_loop i kwargs df) ! i) = payment_method (df ! i)"
    and "''tags'' \<notin> fst ` set kwargs \<Longrightarrow> tags (snd (edit_expense_loop i kwargs df) ! i) = tags (df ! i)"
proof -
  show "amount (snd (edit_expense_loop i kwargs df) ! i) = amount (df ! i)"
    if "''amount'' \<notin> fst ` set kwargs"
    by (rule edit_expense_loop_keeps[OF assms]) (use that set_expense_cell_frame(1) in metis)
  show "date (snd (edit_expense_loop i kwargs df) ! i) = date (df ! i)"
    if "''date'' \<notin> fst ` set kwargs"
    by (rule edit_expense_loop_keeps[OF assms]) (use that set_expense_cell_frame(2) in metis)
  show "category (snd (edit_expense_loop i kwargs df) ! i) = category (df ! i)"
    if "''category'' \<notin> fst ` set kwargs"
    by (rule edit_expense_loop_keeps[OF assms]) (use that set_expense_cell_frame(3) in metis)
  show "description (snd (edit_expense_loop i kwargs df) ! i) = description (df ! i)"
    if "''description'' \<notin> fst ` set kwargs"
    by (rule edit_expense_loop_keeps[OF assms]) (use that set_expense_cell_frame(4) in metis)
  show "payment_method (snd (edit_expense_loop i kwargs df) ! i) = payment_method (df ! i)"
    if "''payment_method'' \<notin> fst ` set kwargs"
    by (rule edit_expense_loop_keeps[OF assms]) (use that set_expense_cell_frame(5) in metis)
  show "tags (snd (edit_expense_loop i kwargs df) ! i) = tags (df ! i)"
    if "''tags'' \<notin> fst ` set kwargs"
    by (rule edit_expense_loop_keeps[OF assms]) (use that set_expense_cell_frame(6) in metis)
qed

subsection \<open>Index bounds\<close>

text \<open>
  Claim C7. On a store of length \<open>n\<close> (expenses or budgets), edit and delete raise
  \<open>IndexError\<close> exactly when the index lies outside \<open>[0, n)\<close>: the index is compared,
  never clamped, and the error comes back to the caller. Whenever the error is raised the
  store is what it was.
\<close>

theorem index_error_iff_out_of_range:
  "(fst (edit_expense index kwargs expenses) = Some IndexError \<longleftrightarrow> index < 0 \<or> int (length expenses) \<le> index)
 \<and> (fst (delete_expense index expenses) = Some IndexError \<longleftrightarrow> index < 0 \<or> int (length expenses) \<le> index)
 \<and> (fst (edit_budget index kwargs budgets) = Some IndexError \<longleftrightarrow> index < 0 \<or> int (length budgets) \<le> index)
 \<and> (fst (delete_budget index budgets) = Some IndexError \<longleftrightarrow> index < 0 \<or> int (length budgets) \<le> index)
 \<and> (fst (edit_expense index kwargs expenses) = Some IndexError \<longrightarrow> snd (edit_expense index kwargs expenses) = expenses)
 \<and> (fst (delete_expense index expenses) = Some IndexError \<longrightarrow> snd (delete_expense index expenses) = expenses)
 \<and> (fst (edit_budget index kwargs budgets) = Some IndexError \<longrightarrow> snd (edit_budget index kwargs budgets) = budgets)
 \<and> (fst (delete_budget index budgets) = Some IndexError \<longrightarrow> snd (delete_budget index budgets) = budgets)"
  using edit_expense_loop_no_IndexError[of "nat index" kwargs expenses]
        edit_budget_loop_no_IndexError[of "nat index" kwargs budgets]
  by (simp add: edit_expense_def delete_expense_def edit_budget_def delete_budget_def)

theorem index_error_iff_out_of_range_witness:
  "fst (edit_expense 1 [(''amount'', PNum 3)]
          [\<lparr>amount = 500, date = 5, category = ''Rings'', description = [],
            payment_method = ''Cash'', tags = []\<rparr>]) = Some IndexError
   \<and> snd (edit_expense 1 [(''amount'', PNum 3)]
          [\<lparr>amount = 500, date = 5, category = ''Rings'', description = [],
            payment_method = ''Cash'', tags = []\<rparr>])
       = [\<lparr>amount = 500, date = 5, category = ''Rings'', description = [],
            payment_method = ''Cash'', tags = []\<rparr>]
   \<and> fst (delete_budget 1 []) = Some IndexError \<and> snd (delete_budget 1 []) = []
   \<and> fst (delete_expense 0
          [\<lparr>amount = 500, date = 5, category = ''Rings'', description = [],
            payment_method = ''Cash'', tags = []\<rparr>]) \<noteq> Some IndexError"
  using index_error_iff_out_of_range
    [of 1 "[(''amount'', PNum 3)]"
        "[\<lparr>amount = 500, date = 5, category = ''Rings'', description = [],
           payment_method = ''Cash'', tags = []\<rparr>]" "[]"]
    index_error_iff_out_of_range
    [of 0 "[]"
        "[\<lparr>amount = 500, date = 5, category = ''Rings'', description = [],
           payment_method = ''Cash'', tags = []\<rparr>]" "[]"]
  by simp

subsection \<open>Index compaction\<close>

text \<open>
  Claim C8. Deleting at an index \<open>i\<close> with \<open>0 \<le> i < n\<close> from a store of length \<open>n\<close>
  (expenses or budgets) succeeds and leaves a store of length \<open>n - 1\<close>: the records before
  position \<open>i\<close> stay where they were, and every later position \<open>j\<close> holds the record that
  was at \<open>j + 1\<close>.
\<close>

theorem delete_compacts_indices:
  assumes "0 \<le> i" "i < int (length expenses)" "0 \<le> k" "k < int (length budgets)"
  shows "fst (delete_expense i expenses) = None
       \<and> length (snd (delete_expense i expenses)) = length expenses - 1
       \<and> (\<forall>j < nat i. snd (delete_expense i expenses) ! j = expenses ! j)
       \<and> (\<forall>j. nat i \<le> j \<and> j < length expenses - 1 \<longrightarrow>
             snd (delete_expense i expenses) ! j = expenses ! (j + 1))
       \<and> fst (delete_budget k budgets) = None
       \<and> length (snd (delete_budget k budgets)) = length budgets - 1
       \<and> (\<forall>j < nat k. snd (delete_budget k budgets) ! j = budgets ! j)
       \<and> (\<forall>j. nat k \<le> j \<and> j < length budgets - 1 \<longrightarrow>
             snd (delete_budget k budgets) ! j = budgets ! (j + 1))"
proof -
  have e: "delete_expense i expenses = (None, drop_reset_index i expenses)"
    using assms(1,2) by (simp add: delete_expense_def)
  have b: "delete_budget k budgets = (None, drop_reset_index k budgets)"
    using assms(3,4) by (simp add: delete_budget_def)
  show ?thesis
    unfolding e b fst_conv snd_conv
    using drop_reset_index_compacts[OF assms(1,2)] drop_reset_index_compacts[OF assms(3,4)]
    by blast
qed

theorem delete_compacts_indices_witness:
  "snd (delete_expense 1
     [\<lparr>amount = 1, date = 1, category = ''a'', description = [], payment_method = [], tags = []\<rparr>,
      \<lparr>amount = 2, date = 2, category = ''b'', description = [], payment_method = [], tags = []\<rparr>,
      \<lparr>amount = 3, date = 3, category = ''c'', description = [], payment_method = [], tags = []\<rparr>]) ! 1
   = \<lparr>amount = 3, date = 3, category = ''c'', description = [], payment_method = [], tags = []\<rparr>
   \<and> length (snd (delete_budget 0
     [\<lparr>b_category = ''overall'', b_amount = 10, period = ''monthly'', start_date = Some 1,
       end_date = None\<rparr>])) = 0"
proof -
  let ?es = "[\<lparr>amount = 1, date = 1, category = ''a'', description = [], payment_method = [], tags = []\<rparr>,
      \<lparr>amount = 2, date = 2, category = ''b'', description = [], payment_method = [], tags = []\<rparr>,
      \<lparr>amount = 3, date = 3, category = ''c'', description = [], payment_method = [], tags = []\<rparr>]"
  let ?bs = "[\<lparr>b_category = ''overall'', b_amount = 10, period = ''monthly'', start_date = Some 1,
       end_date = None\<rparr>]"
  have h: "(0::int) \<le> 1" "1 < int (length ?es)" "(0::int) \<le> 0" "0 < int (length ?bs)"
    by simp_all
  from delete_compacts_indices[OF h]
  have "snd (delete_expense 1 ?es) ! 1 = ?es ! (1 + 1)"
    and "length (snd (delete_budget 0 ?bs)) = length ?bs - 1"
    by simp_all
  then show ?thesis by simp
qed

subsection \<open>Editing touches the named columns only\<close>

text \<open>
  Claim C10. For an index in range, \<open>edit_expense\<close> applies the supplied keys that name a
  column of the store and skips every other key: the result is the one obtained from the
  column keys alone, keys that name no column raise nothing and change nothing, the store
  keeps its length, every other record is untouched, and a column of the targeted record
  that no supplied key names keeps its value. (A record has exactly the six columns, so no
  field can appear.)
\<close>

theorem edit_expense_only_columns:
  assumes "0 \<le> index" "index < int (length df)"
  shows "edit_expense index kwargs df
           = edit_expense index (filter (\<lambda>(key, value). key \<in> set expense_columns) kwargs) df
       \<and> ((\<forall>(key, value) \<in> set kwargs. key \<notin> set expense_columns) \<longrightarrow>
              edit_expense index kwargs df = (None, df))
       \<and> length (snd (edit_expense index kwargs df)) = length df
       \<and> (\<forall>j. j \<noteq> nat index \<longrightarrow> snd (edit_expense index kwargs df) ! j = df ! j)
       \<and> (''amount'' \<notin> fst ` set kwargs \<longrightarrow>
              amount (snd (edit_expense index kwargs df) ! nat index) = amount (df ! nat index))
       \<and> (''date'' \<notin> fst ` set kwargs \<longrightarrow>
              date (snd (edit_expense index kwargs df) ! nat index) = date (df ! nat index))
       \<and> (''category'' \<notin> fst ` set kwargs \<longrightarrow>
              category (snd (edit_expense index kwargs df) ! nat index) = category (df ! nat index))
       \<and> (''description'' \<notin> fst ` set kwargs \<longrightarrow>
              description (snd (edit_expense index kwargs df) ! nat index) = description (df ! nat index))
       \<and> (''payment_method'' \<notin> fst ` set kwargs \<longrightarrow>
              payment_method (snd (edit_expense index kwargs df) ! nat index)
                = payment_method (df ! nat index))
       \<and> (''tags'' \<notin> fst ` set kwargs \<longrightarrow>
              tags (snd (edit_expense index kwargs df) ! nat index) = tags (df ! nat index))"
proof -
  let ?i = "nat index"
  have i: "?i < length df" using assms by auto
  have e: "\<And>kw. edit_expense index kw df = edit_expense_loop ?i kw df"
    using assms by (simp add: edit_expense_def)
  show ?thesis
    unfolding e
    using edit_expense_loop_skips_unknown[of ?i kwargs df]
      edit_expense_loop_all_unknown[of kwargs ?i df]
      edit_expense_loop_length[of ?i kwargs df]
      edit_expense_loop_others[of _ ?i kwargs df]
      edit_expense_loop_frame[OF i, of kwargs]
    by blast
qed

theorem edit_expense_only_columns_witness:
  "edit_expense 0 [(''amount'', PNum 5), (''colour'', PStr ''red'')]
     [\<lparr>amount = 1, date = 1, category = ''a'', description = [], payment_method = [], tags = []\<rparr>]
   = (None, [\<lparr>amount = 5, date = 1, category = ''a'', description = [], payment_method = [], tags = []\<rparr>])
 \<and> edit_expense 0 [(''colour'', PStr ''red'')]
     [\<lparr>amount = 1, date = 1, category = ''a'', description = [], payment_method = [], tags = []\<rparr>]
   = (None, [\<lparr>amount = 1, date = 1, category = ''a'', description = [], payment_method = [], tags = []\<rparr>])"
proof -
  let ?df = "[\<lparr>amount = 1, date = 1, category = ''a'', description = [], payment_method = [], tags = []\<rparr>]"
  have h: "(0::int) \<le> 0" "0 < int (length ?df)" by simp_all
  have k: "\<forall>(key, value) \<in> set [(''colour'', PStr ''red'')]. key \<notin> set expense_columns"
    by (simp add: expense_columns_def)
  have 1: "edit_expense 0 [(''amount'', PNum 5), (''colour'', PStr ''red'')] ?df
           = edit_expense 0 [(''amount'', PNum 5)] ?df"
    using edit_expense_only_columns[OF h, of "[(''amount'', PNum 5), (''colour'', PStr ''red'')]"]
    by (simp add: expense_columns_def)
  have 2: "edit_expense 0 [(''colour'', PStr ''red'')] ?df = (None, ?df)"
    using edit_expense_only_columns[OF h, of "[(''colour'', PStr ''red'')]"] k by blast
  have 3: "edit_expense 0 [(''amount'', PNum 5)] ?df
           = (None, [\<lparr>amount = 5, date = 1, category = ''a'', description = [], payment_method = [], tags = []\<rparr>])"
    by (simp add: edit_expense_def expense_columns_def set_expense_cell_def)
  show ?thesis using 1 2 3 by simp
qed

section \<open>Properties of float arithmetic\<close>

text \<open>
  \<open>round64\<close> is determined by the binade of its argument: the lemmas below let a
  concrete rounding be checked from the exponent and the rounded significand.
\<close>

lemma pow2_power_int: "pow2 k = power_int 2 k"
  by (simp add: pow2_def power_int_def inverse_eq_divide power_one_over)

lemma pow2_pos: "0 < pow2 k"
  by (simp add: pow2_power_int)

lemma pow2_strict_mono: "i < j \<Longrightarrow> pow2 i < pow2 j"
  by (simp add: pow2_power_int power_int_strict_increasing)

lemma pow2_add: "pow2 (i + j) = pow2 i * pow2 j"
  by (simp add: pow2_power_int power_int_add)

lemma pow2_nat: "pow2 (int n) = 2 ^ n"
  by (simp add: pow2_def)

lemma binade_bounds:
  assumes "0 < a"
  shows "pow2 (binade a) \<le> a \<and> a < pow2 (binade a + 1)"
proof -
  obtain p q where pq: "quotient_of a = (p, q)" by (cases "quotient_of a")
  have q: "0 < q" using pq by (rule quotient_of_denom_pos)
  have a: "a = of_int p / of_int q" using pq by (rule quotient_of_div)
  have p: "0 < p" using assms q a by (simp add: zero_less_divide_iff)
  let ?bp = "bitlen p" and ?bq = "bitlen q"
  have bp1: "1 \<le> ?bp" using p by (auto simp: bitlen_alt_def)
  have bq1: "1 \<le> ?bq" using q by (auto simp: bitlen_alt_def)
  have plo: "(2::rat) ^ nat (?bp - 1) \<le> of_int p" and phi: "of_int p < (2::rat) ^ nat ?bp"
    using bitlen_bounds[OF p]
    by (metis of_int_le_iff of_int_numeral of_int_power, metis of_int_less_iff of_int_numeral of_int_power)
  have qlo: "(2::rat) ^ nat (?bq - 1) \<le> of_int q" and qhi: "of_int q < (2::rat) ^ nat ?bq"
    using bitlen_bounds[OF q]
    by (metis of_int_le_iff of_int_numeral of_int_power, metis of_int_less_iff of_int_numeral of_int_power)
  have plo': "pow2 (?bp - 1) \<le> of_int p" using plo bp1 by (simp add: pow2_def)
  have phi': "of_int p < pow2 ?bp" using phi bp1 by (simp add: pow2_def)
  have qlo': "pow2 (?bq - 1) \<le> of_int q" using qlo bq1 by (simp add: pow2_def)
  have qhi': "of_int q < pow2 ?bq" using qhi bq1 by (simp add: pow2_def)
  have qpos: "(0::rat) < of_int q" using q by simp
  let ?d = "?bp - ?bq"
  have upper: "a < pow2 (?d + 1)"
  proof -
    have "of_int p < pow2 ?bp" by (rule phi')
    also have "pow2 ?bp = pow2 (?d + 1) * pow2 (?bq - 1)"
      by (simp flip: pow2_add)
    also have "\<dots> \<le> pow2 (?d + 1) * of_int q"
      using qlo' pow2_pos[of "?d + 1"] by (simp add: mult_left_mono)
    finally show ?thesis using qpos by (simp add: a pos_divide_less_eq)
  qed
  have lower: "pow2 (?d - 1) < a"
  proof -
    have "pow2 (?d - 1) * of_int q < pow2 (?d - 1) * pow2 ?bq"
      using qhi' pow2_pos[of "?d - 1"] by (simp add: mult_strict_left_mono)
    also have "\<dots> = pow2 (?bp - 1)" by (simp flip: pow2_add)
    also have "\<dots> \<le> of_int p" by (rule plo')
    finally show ?thesis using qpos by (simp add: a pos_less_divide_eq)
  qed
  show ?thesis
  proof (cases "pow2 ?d \<le> a")
    case True
    then have "binade a = ?d" by (simp add: binade_def pq Let_def)
    with True upper show ?thesis by simp
  next
    case False
    then have "binade a = ?d - 1" by (simp add: binade_def pq Let_def)
    with False lower show ?thesis by simp
  qed
qed

lemma binade_eq:
  assumes "pow2 e \<le> a" "a < pow2 (e + 1)"
  shows "binade a = e"
proof -
  have "0 < a" using assms(1) pow2_pos[of e] by simp
  from binade_bounds[OF this]
  have lo: "pow2 (binade a) \<le> a" and hi: "a < pow2 (binade a + 1)" by simp_all
  have mono: "pow2 i \<le> pow2 j" if "i \<le> j" for i j
    using that pow2_strict_mono[of i j] by (cases "i = j") simp_all
  have 1: "e < binade a + 1"
  proof (rule ccontr)
    assume "\<not> e < binade a + 1"
    then have "pow2 (binade a + 1) \<le> pow2 e" by (intro mono) simp
    with assms(1) hi show False by simp
  qed
  have 2: "binade a < e + 1"
  proof (rule ccontr)
    assume "\<not> binade a < e + 1"
    then have "pow2 (e + 1) \<le> pow2 (binade a)" by (intro mono) simp
    with lo assms(2) show False by simp
  qed
  from 1 2 show ?thesis by simp
qed

lemma round_half_even_nearest:
  assumes "of_int m - 1 / 2 < x" "x < of_int m + 1 / 2"
  shows "round_half_even x = m"
proof (cases "of_int m \<le> x")
  case True
  then have "\<lfloor>x\<rfloor> = m" using assms(2) by (intro floor_unique) simp_all
  then show ?thesis using assms True by (simp add: round_half_even_def Let_def)
next
  case False
  then have "\<lfloor>x\<rfloor> = m - 1" using assms(1) by (intro floor_unique) simp_all
  then show ?thesis using assms False by (simp add: round_half_even_def Let_def)
qed

lemma round_half_even_tie_down:
  assumes "x = of_int m + 1 / 2" "even m"
  shows "round_half_even x = m"
proof -
  have "\<lfloor>x\<rfloor> = m" using assms(1) by (intro floor_unique) simp_all
  then show ?thesis using assms by (simp add: round_half_even_def Let_def)
qed

lemma round_half_even_tie_up:
  assumes "x = of_int m - 1 / 2" "even m"
  shows "round_half_even x = m"
proof -
  have "\<lfloor>x\<rfloor> = m - 1" using assms(1) by (intro floor_unique) simp_all
  then show ?thesis using assms by (simp add: round_half_even_def Let_def)
qed

lemma round_half_even_of_int: "round_half_even (of_int m) = m"
  by (rule round_half_even_nearest) simp_all

lemma round64_eqI:
  assumes "x \<noteq> 0"
    and "pow2 e \<le> \<bar>x\<bar>" "\<bar>x\<bar> < pow2 (e + 1)" "- 1022 \<le> e"
    and "round_half_even (\<bar>x\<bar> / pow2 (e - 52)) = m"
    and "of_int m * pow2 (e - 52) < pow2 1024"
    and "y = (if 0 < x then of_int m * pow2 (e - 52) else - (of_int m * pow2 (e - 52)))"
  shows "round64 x = Fin y"
proof -
  have "binade \<bar>x\<bar> = e" using assms(2,3) by (rule binade_eq)
  then have e: "max (binade \<bar>x\<bar>) (- 1022) = e" using assms(4) by simp
  show ?thesis
    unfolding round64_def Let_def e assms(5)
    using assms(1,6,7) by simp
qed

section \<open>Properties of the budget evaluation engine\<close>

lemma mask_spec_selects:
  "spec_selects today b e \<longleftrightarrow>
     mask today b e \<and> (b_category b = ''overall'' \<or> category e = b_category b)"
  by (auto simp: spec_selects_def mask_def window_end_def split: option.splits)

lemma spent_is_spec_spent:
  "(if b_category b = ''overall''
    then series_sum (map amount (filter (mask today b) expenses))
    else series_sum (map amount
           (filter (\<lambda>e. mask today b e \<and> category e = b_category b) expenses)))
   = spec_spent series_sum today expenses b"
proof (cases "b_category b = ''overall''")
  case True
  then have "spec_selects today b = mask today b"
    using mask_spec_selects by (simp add: fun_eq_iff)
  with True show ?thesis by (simp add: spec_spent_def)
next
  case False
  then have "spec_selects today b = (\<lambda>e. mask today b e \<and> category e = b_category b)"
    using mask_spec_selects by (simp add: fun_eq_iff)
  with False show ?thesis by (simp add: spec_spent_def)
qed

lemma get_alerts_loop_spec:
  "get_alerts_loop series_sum today expenses budgets alerts =
     alerts @ map (\<lambda>b. (b_category b, b_amount b, spec_spent series_sum today expenses b))
                (filter (\<lambda>b. fgt (spec_spent series_sum today expenses b) (Fin (b_amount b))) budgets)"
proof (induction budgets arbitrary: alerts)
  case Nil
  then show ?case by simp
next
  case (Cons b bs)
  show ?case
    by (simp add: Let_def spent_is_spec_spent Cons.IH)
qed

lemma check_budget_alerts_in_session:
  assumes "\<forall>d \<in> set budgets. d_end_date d \<noteq> NaT"
  shows "check_budget_alerts series_sum now df budgets
           = get_alerts_loop series_sum now df (map as_budget budgets) []"
proof -
  have mask_fun: "mask today b =
      (\<lambda>e. (case start_date b of Some start \<Rightarrow> date e \<ge> start | None \<Rightarrow> False)
           \<and> date e \<le> window_end today b)" for today b
    by (simp add: fun_eq_iff mask_def)
  have gen: "acc @ check_budget_alerts series_sum now df ds
               = get_alerts_loop series_sum now df (map as_budget ds) acc"
    if "\<forall>d \<in> set ds. d_end_date d \<noteq> NaT" for ds acc
    using that
  proof (induction ds arbitrary: acc)
    case Nil
    then show ?case by simp
  next
    case (Cons d ds)
    have d: "d_end_date d \<noteq> NaT" and rest: "\<forall>d \<in> set ds. d_end_date d \<noteq> NaT"
      using Cons.prems by simp_all
    show ?case
      using Cons.IH[OF rest, symmetric] d
      by (cases "d_end_date d") (simp_all add: Let_def mask_fun mask_def window_end_def as_budget_def)
  qed
  show ?thesis using gen[OF assms, of "[]"] by simp
qed

subsection \<open>Overspend alerts\<close>

text \<open>
  The browser version. For every expense store, budget store and evaluation instant,
  \<open>get_alerts\<close> emits the alert \<open>(category, budget_amount, spent)\<close> for exactly the
  budgets whose \<open>spent\<close> is greater than their amount as floats compare, in store
  order; \<open>spent\<close> is the float sum of the amounts the budget selects.
\<close>

theorem get_alerts_exactly_overspent:
  "get_alerts series_sum today expenses budgets =
     map (\<lambda>b. (b_category b, b_amount b, spec_spent series_sum today expenses b))
         (filter (\<lambda>b. fgt (spec_spent series_sum today expenses b) (Fin (b_amount b))) budgets)"
  using get_alerts_loop_spec[of series_sum today expenses budgets "[]"]
  by (simp add: get_alerts_def)

text \<open>
  At the threshold the sums are float sums: the doubles nearest 0.1 and 0.2 add up to more
  than the double nearest 0.3, so a budget of 0.3 is overspent; \<open>1e16 + 1\<close> rounds to
  \<open>1e16\<close>, so a budget of \<open>1e16\<close> is not.
\<close>

theorem get_alerts_float_threshold:
  "get_alerts sequential_sum 20
     [\<lparr>amount = 3602879701896397 / 36028797018963968, date = 5, category = ''Beads'', description = [], payment_method = [], tags = []\<rparr>,
      \<lparr>amount = 3602879701896397 / 18014398509481984, date = 6, category = ''Beads'', description = [], payment_method = [], tags = []\<rparr>]
     [\<lparr>b_category = ''Beads'', b_amount = 5404319552844595 / 18014398509481984, period = ''monthly'', start_date = Some 1, end_date = None\<rparr>]
   = [(''Beads'', 5404319552844595 / 18014398509481984, Fin (1351079888211149 / 4503599627370496))]
 \<and> get_alerts sequential_sum 20
     [\<lparr>amount = 10000000000000000, date = 5, category = ''Gold'', description = [], payment_method = [], tags = []\<rparr>,
      \<lparr>amount = 1, date = 6, category = ''Gold'', description = [], payment_method = [], tags = []\<rparr>]
     [\<lparr>b_category = ''Gold'', b_amount = 10000000000000000, period = ''monthly'', start_date = Some 1, end_date = None\<rparr>]
   = []"
proof -
  have f1: "fadd (Fin 0) (Fin (3602879701896397 / 36028797018963968)) = Fin (3602879701896397 / 36028797018963968)"
  proof -
    have "round64 (0 + (3602879701896397 / 36028797018963968)) = Fin (3602879701896397 / 36028797018963968)"
    proof (rule round64_eqI[where e = "- 4" and m = "7205759403792794"])
      show "round_half_even (\<bar>0 + (3602879701896397 / 36028797018963968)\<bar> / pow2 (- 4 - 52)) = 7205759403792794"
        by (rule round_half_even_nearest) (simp_all add: pow2_def)
    qed (simp_all add: pow2_def)
    then show ?thesis by simp
  qed
  have f2: "fadd (Fin (3602879701896397 / 36028797018963968)) (Fin (3602879701896397 / 18014398509481984)) = Fin (1351079888211149 / 4503599627370496)"
  proof -
    have "round64 ((3602879701896397 / 36028797018963968) + (3602879701896397 / 18014398509481984)) = Fin (1351079888211149 / 4503599627370496)"
    proof (rule round64_eqI[where e = "- 2" and m = "5404319552844596"])
      show "round_half_even (\<bar>(3602879701896397 / 36028797018963968) + (3602879701896397 / 18014398509481984)\<bar> / pow2 (- 2 - 52)) = 5404319552844596"
        by (rule round_half_even_tie_up) (simp_all add: pow2_def)
    qed (simp_all add: pow2_def)
    then show ?thesis by simp
  qed
  have f3: "fadd (Fin 0) (Fin 10000000000000000) = Fin 10000000000000000"
  proof -
    have "round64 (0 + 10000000000000000) = Fin 10000000000000000"
    proof (rule round64_eqI[where e = "53" and m = "5000000000000000"])
      show "round_half_even (\<bar>0 + 10000000000000000\<bar> / pow2 (53 - 52)) = 5000000000000000"
        by (rule round_half_even_nearest) (simp_all add: pow2_def)
    qed (simp_all add: pow2_def)
    then show ?thesis by simp
  qed
  have f4: "fadd (Fin 10000000000000000) (Fin 1) = Fin 10000000000000000"
  proof -
    have "round64 (10000000000000000 + 1) = Fin 10000000000000000"
    proof (rule round64_eqI[where e = "53" and m = "5000000000000000"])
      show "round_half_even (\<bar>10000000000000000 + 1\<bar> / pow2 (53 - 52)) = 5000000000000000"
        by (rule round_half_even_tie_down) (simp_all add: pow2_def)
    qed (simp_all add: pow2_def)
    then show ?thesis by simp
  qed
  show ?thesis
    by (simp add: get_alerts_def sequential_sum_def mask_def window_end_def Let_def
        f1 f2 f3 f4
        del: fadd.simps(1) fmul.simps(1) fdiv.simps(1) rint.simps(1))
qed

text \<open>
  The terminal version agrees with the browser version on budgets whose end date is
  \<open>None\<close> or a timestamp.
\<close>

lemma check_budget_alerts_exactly_overspent:
  assumes "\<forall>d \<in> set budgets. d_end_date d \<noteq> NaT"
  shows "check_budget_alerts series_sum now df budgets =
     map (\<lambda>b. (b_category b, b_amount b, spec_spent series_sum now df b))
         (filter (\<lambda>b. fgt (spec_spent series_sum now df b) (Fin (b_amount b)))
            (map as_budget budgets))"
  using check_budget_alerts_in_session[OF assms, of series_sum now df]
    get_alerts_loop_spec[of series_sum now df "map as_budget budgets" "[]"]
  by simp

text \<open>
  Claim C1 on the code. In the terminal version, a budget read back from \<open>budgets.csv\<close>
  holds \<open>NaT\<close> for its absent end date; \<open>NaT\<close> is true in the test
  \<open>if budget['end_date']\<close>, so the window ends at \<open>NaT\<close> and selects nothing: with an
  expense of 500 in [day 1, today] and a budget of 100, no alert is printed. The same
  budget with \<open>None\<close> as set in the session, and the same budget in the browser version,
  give the alert \<open>(Rings, 100, 500)\<close>.
\<close>

theorem terminal_alert_lost_on_nat_end_date:
  "check_budget_alerts sequential_sum 20
     [\<lparr>amount = 500, date = 5, category = ''Rings'', description = [], payment_method = [], tags = []\<rparr>]
     [\<lparr>d_category = ''Rings'', d_amount = 100, d_period = ''monthly'', d_start_date = Some 1, d_end_date = NaT\<rparr>]
   = []
 \<and> check_budget_alerts sequential_sum 20
     [\<lparr>amount = 500, date = 5, category = ''Rings'', description = [], payment_method = [], tags = []\<rparr>]
     [\<lparr>d_category = ''Rings'', d_amount = 100, d_period = ''monthly'', d_start_date = Some 1, d_end_date = PyNone\<rparr>]
   = [(''Rings'', 100, Fin 500)]
 \<and> get_alerts sequential_sum 20
     [\<lparr>amount = 500, date = 5, category = ''Rings'', description = [], payment_method = [], tags = []\<rparr>]
     [\<lparr>b_category = ''Rings'', b_amount = 100, period = ''monthly'', start_date = Some 1, end_date = None\<rparr>]
   = [(''Rings'', 100, Fin 500)]"
proof -
  have f1: "fadd (Fin 0) (Fin 500) = Fin 500"
  proof -
    have "round64 (0 + 500) = Fin 500"
    proof (rule round64_eqI[where e = "8" and m = "8796093022208000"])
      show "round_half_even (\<bar>0 + 500\<bar> / pow2 (8 - 52)) = 8796093022208000"
        by (rule round_half_even_nearest) (simp_all add: pow2_def)
    qed (simp_all add: pow2_def)
    then show ?thesis by simp
  qed
  show ?thesis
    by (simp add: get_alerts_def sequential_sum_def mask_def window_end_def Let_def
        f1
        del: fadd.simps(1) fmul.simps(1) fdiv.simps(1) rint.simps(1))
qed

subsection \<open>Budget-vs-actual comparison\<close>















text \<open>
  Claim C2 on the code. An active monthly budget of amount 0 whose window holds an
  expense of 50 gets the percentage \<open>+inf\<close>, not 0: \<open>fillna(0)\<close> replaces the \<open>NaN\<close> of
  \<open>0 / 0\<close> only.
\<close>

theorem zero_budget_percentage_infinite:
  "get_budget_vs_actual sequential_sum 20
     [\<lparr>amount = 50, date = 5, category = ''Food'', description = [], payment_method = [], tags = []\<rparr>]
     [\<lparr>b_category = ''Food'', b_amount = 0, period = ''monthly'', start_date = Some 1, end_date = None\<rparr>]
   = [\<lparr>c_category = ''Food'', c_budget = 0, c_actual = Fin 50, c_difference = Fin 50, c_percentage = PInf\<rparr>]"
proof -
  have f1: "fadd (Fin 0) (Fin 50) = Fin 50"
  proof -
    have "round64 (0 + 50) = Fin 50"
    proof (rule round64_eqI[where e = "5" and m = "7036874417766400"])
      show "round_half_even (\<bar>0 + 50\<bar> / pow2 (5 - 52)) = 7036874417766400"
        by (rule round_half_even_nearest) (simp_all add: pow2_def)
    qed (simp_all add: pow2_def)
    then show ?thesis by simp
  qed
  have f2: "fadd (Fin 50) (Fin 0) = Fin 50"
  proof -
    have "round64 (50 + 0) = Fin 50"
    proof (rule round64_eqI[where e = "5" and m = "7036874417766400"])
      show "round_half_even (\<bar>50 + 0\<bar> / pow2 (5 - 52)) = 7036874417766400"
        by (rule round_half_even_nearest) (simp_all add: pow2_def)
    qed (simp_all add: pow2_def)
    then show ?thesis by simp
  qed
  have f3: "fdiv (Fin 50) (Fin 0) = PInf"
    by simp
  show ?thesis
    by (simp add: get_budget_vs_actual_def is_active_def mask_def window_end_def merge_left_def finish_row_def sequential_sum_def round_1_def fsub_def Let_def
        f1 f2 f3
        del: fadd.simps(1) fmul.simps(1) fdiv.simps(1) rint.simps(1))
qed

text \<open>
  Claim C4 on the code. An active monthly \<open>overall\<close> budget with an expense of 500 in its
  window gets a row labelled \<open>Overall\<close> whose \<open>actual\<close> is 0, although the sum over its
  window is 500: the loop files the sum under \<open>Overall\<close>, and the merge looks it up under
  \<open>overall\<close>.
\<close>

theorem overall_row_actual_zero:
  "get_budget_vs_actual sequential_sum 20
     [\<lparr>amount = 500, date = 5, category = ''Rings'', description = [], payment_method = [], tags = []\<rparr>]
     [\<lparr>b_category = ''overall'', b_amount = 1000, period = ''monthly'', start_date = Some 1, end_date = None\<rparr>]
   = [\<lparr>c_category = ''Overall'', c_budget = 1000, c_actual = Fin 0, c_difference = Fin (- 1000), c_percentage = Fin 0\<rparr>]
 \<and> spec_spent sequential_sum 20
     [\<lparr>amount = 500, date = 5, category = ''Rings'', description = [], payment_method = [], tags = []\<rparr>]
     \<lparr>b_category = ''overall'', b_amount = 1000, period = ''monthly'', start_date = Some 1, end_date = None\<rparr>
   = Fin 500"
proof -
  have f1: "fadd (Fin 0) (Fin 500) = Fin 500"
  proof -
    have "round64 (0 + 500) = Fin 500"
    proof (rule round64_eqI[where e = "8" and m = "8796093022208000"])
      show "round_half_even (\<bar>0 + 500\<bar> / pow2 (8 - 52)) = 8796093022208000"
        by (rule round_half_even_nearest) (simp_all add: pow2_def)
    qed (simp_all add: pow2_def)
    then show ?thesis by simp
  qed
  have f2: "fadd (Fin 0) (Fin (- 1000)) = Fin (- 1000)"
  proof -
    have "round64 (0 + (- 1000)) = Fin (- 1000)"
    proof (rule round64_eqI[where e = "9" and m = "8796093022208000"])
      show "round_half_even (\<bar>0 + (- 1000)\<bar> / pow2 (9 - 52)) = 8796093022208000"
        by (rule round_half_even_nearest) (simp_all add: pow2_def)
    qed (simp_all add: pow2_def)
    then show ?thesis by simp
  qed
  have f3: "fdiv (Fin 0) (Fin 1000) = Fin 0"
    by (simp add: round64_def)
  have f4: "fmul (Fin 0) (Fin 100) = Fin 0"
    by (simp add: round64_def)
  have f5: "fmul (Fin 0) (Fin 10) = Fin 0"
    by (simp add: round64_def)
  have f6: "rint (Fin 0) = Fin 0"
  proof -
    have "round_half_even (0) = 0"
      by (rule round_half_even_nearest) simp_all
    then show ?thesis by simp
  qed
  have f7: "fdiv (Fin 0) (Fin 10) = Fin 0"
    by (simp add: round64_def)
  show ?thesis
    by (simp add: get_budget_vs_actual_def is_active_def mask_def window_end_def merge_left_def finish_row_def sequential_sum_def round_1_def fsub_def Let_def spec_spent_def spec_selects_def
        f1 f2 f3 f4 f5 f6 f7
        del: fadd.simps(1) fmul.simps(1) fdiv.simps(1) rint.simps(1))
qed

section \<open>Properties of viewing\<close>

lemma re_compile_plain:
  "\<forall>ch \<in> set pat. ch \<notin> set regex_special \<Longrightarrow> re_compile pat = Some (map Lit pat)"
  by (induction pat) (auto simp: regex_special_def)

lemma match_here_lit_ci:
  "match_here False (map Lit pat) s = prefix (map ascii_lower pat) (map ascii_lower s)"
proof (induction pat arbitrary: s)
  case Nil
  then show ?case by simp
next
  case (Cons c cs)
  then show ?case by (cases s) auto
qed

lemma match_here_lit_cs:
  "match_here True (map Lit pat) s = prefix pat s"
proof (induction pat arbitrary: s)
  case Nil
  then show ?case by simp
next
  case (Cons c cs)
  then show ?case by (cases s) auto
qed

lemma re_search_lit_ci:
  "re_search False (map Lit pat) s = ci_substring pat s"
proof (induction s)
  case Nil
  show ?case by (cases pat) (simp_all add: ci_substring_def)
next
  case (Cons d ds)
  then show ?case
    by (simp add: ci_substring_def sublist_Cons_right match_here_lit_ci)
qed

lemma re_search_lit_cs:
  "re_search True (map Lit pat) s = sublist pat s"
proof (induction s)
  case Nil
  show ?case by (cases pat) simp_all
next
  case (Cons d ds)
  then show ?case
    by (simp add: sublist_Cons_right match_here_lit_cs)
qed

lemma ci_substring_empty: "ci_substring [] s"
  by (simp add: ci_substring_def)

lemma apply_filter_entry:
  assumes "plain f"
  shows "apply_filter (entry f) df = Inr (filter (satisfies f) df)"
proof (cases f)
  case (DateRange s t)
  then show ?thesis by (simp cong: filter_cong)
next
  case (AmountRange lo hi)
  then show ?thesis by (simp cong: filter_cong)
next
  case (Category c)
  then show ?thesis
    using assms
    by (cases "c = []") (simp_all add: re_compile_plain re_search_lit_ci ci_substring_empty cong: filter_cong)
next
  case (PaymentMethod p)
  then show ?thesis using assms by (simp cong: filter_cong)
next
  case (Tags t)
  then show ?thesis
    using assms
    by (cases "t = []") (simp_all add: re_compile_plain re_search_lit_ci ci_substring_empty cong: filter_cong)
qed

lemma apply_filter_terminal_entry:
  assumes "plain f"
  shows "apply_filter_terminal (entry f) df = Inr (filter (satisfies_terminal f) df)"
proof (cases f)
  case (DateRange s t)
  then show ?thesis by (simp cong: filter_cong)
next
  case (AmountRange lo hi)
  then show ?thesis by (simp cong: filter_cong)
next
  case (Category c)
  then show ?thesis by (simp cong: filter_cong)
next
  case (PaymentMethod p)
  then show ?thesis by (simp cong: filter_cong)
next
  case (Tags t)
  then show ?thesis
    using assms by (simp add: re_compile_plain re_search_lit_cs cong: filter_cong)
qed

lemma apply_filters_entries:
  assumes "\<forall>f \<in> set fs. plain f"
  shows "apply_filters (map entry fs) df = Inr (filter (\<lambda>e. \<forall>f \<in> set fs. satisfies f e) df)"
  using assms
proof (induction fs arbitrary: df)
  case Nil
  then show ?case by simp
next
  case (Cons f fs)
  have p: "plain f" and rest: "\<forall>f \<in> set fs. plain f" using Cons.prems by simp_all
  have "filter (\<lambda>e. \<forall>g \<in> set fs. satisfies g e) (filter (satisfies f) df)
          = filter (\<lambda>e. \<forall>g \<in> set (f # fs). satisfies g e) df"
    by (auto intro: filter_cong)
  then show ?case
    by (simp only: list.map apply_filters.simps apply_filter_entry[OF p] sum.case Cons.IH[OF rest])
qed

lemma apply_filters_terminal_entries:
  assumes "\<forall>f \<in> set fs. plain f"
  shows "apply_filters_terminal (map entry fs) df
           = Inr (filter (\<lambda>e. \<forall>f \<in> set fs. satisfies_terminal f e) df)"
  using assms
proof (induction fs arbitrary: df)
  case Nil
  then show ?case by simp
next
  case (Cons f fs)
  have p: "plain f" and rest: "\<forall>f \<in> set fs. plain f" using Cons.prems by simp_all
  have "filter (\<lambda>e. \<forall>g \<in> set fs. satisfies_terminal g e) (filter (satisfies_terminal f) df)
          = filter (\<lambda>e. \<forall>g \<in> set (f # fs). satisfies_terminal g e) df"
    by (auto intro: filter_cong)
  then show ?case
    by (simp only: list.map apply_filters_terminal.simps apply_filter_terminal_entry[OF p] sum.case
        Cons.IH[OF rest])
qed

lemma apply_filters_append:
  "apply_filters (fs1 @ fs2) df =
     (case apply_filters fs1 df of Inl e \<Rightarrow> Inl e | Inr v \<Rightarrow> apply_filters fs2 v)"
  by (induction fs1 arbitrary: df) (auto split: sum.splits)

lemma apply_filters_terminal_append:
  "apply_filters_terminal (fs1 @ fs2) df =
     (case apply_filters_terminal fs1 df of Inl e \<Rightarrow> Inl e | Inr v \<Rightarrow> apply_filters_terminal fs2 v)"
  by (induction fs1 arbitrary: df) (auto split: sum.splits)

lemma apply_filter_unknown_key:
  assumes "key \<notin> set filter_keys"
  shows "apply_filter (key, value) df = Inr df"
    and "apply_filter_terminal (key, value) df = Inr df"
  using assms by (simp_all add: filter_keys_def)

lemma apply_filters_skip_unknown:
  assumes "key \<notin> set filter_keys"
  shows "apply_filters (fs1 @ (key, value) # fs2) df = apply_filters (fs1 @ fs2) df"
    and "apply_filters_terminal (fs1 @ (key, value) # fs2) df = apply_filters_terminal (fs1 @ fs2) df"
  by (simp_all add: apply_filters_append apply_filters_terminal_append
      apply_filter_unknown_key[OF assms] del: apply_filter.simps apply_filter_terminal.simps
      split: sum.splits)

subsection \<open>Filters\<close>

text \<open>
  Claim C5, as the code has it. For every expense store and every combination of supplied
  filters whose category and tags texts are plain (and whose payment method text is not
  empty), the browser version's view without a sort key returns, in store order, exactly
  the records that satisfy all the supplied predicates together: date within the inclusive
  range, amount within the inclusive range, category containing the text regardless of
  case, payment method equal to the text, tags containing the text regardless of case. The
  terminal version's view does the same with two other predicates: category equal to the
  text, and tags containing the text with its case. Without filters both return the whole
  store.
\<close>

theorem view_returns_matching_records:
  assumes "\<forall>f \<in> set fs. plain f"
  shows "view_expenses sort_values (Some (map entry fs)) None expenses
           = Inr (filter (\<lambda>e. \<forall>f \<in> set fs. satisfies f e) expenses)
       \<and> view_expenses_terminal sort_values (Some (map entry fs)) None expenses
           = Inr (filter (\<lambda>e. \<forall>f \<in> set fs. satisfies_terminal f e) expenses)
       \<and> view_expenses sort_values None None expenses = Inr expenses
       \<and> view_expenses_terminal sort_values None None expenses = Inr expenses"
  by (simp add: view_expenses_def view_expenses_terminal_def sort_view_def
      apply_filters_entries[OF assms] apply_filters_terminal_entries[OF assms])

theorem view_returns_matching_records_witness:
  "view_expenses (\<lambda>by df. df)
     (Some (map entry [Category ''ring'', AmountRange 100 1000, DateRange 1 10,
                       PaymentMethod ''Cash'', Tags ''gift'']))
     None
     [\<lparr>amount = 500, date = 5, category = ''Rings'', description = [], payment_method = ''Cash'', tags = ''Gold,Gift''\<rparr>,
      \<lparr>amount = 80, date = 9, category = ''Earrings'', description = [], payment_method = ''Card'', tags = ''gift''\<rparr>]
   = Inr [\<lparr>amount = 500, date = 5, category = ''Rings'', description = [], payment_method = ''Cash'', tags = ''Gold,Gift''\<rparr>]"
proof -
  let ?fs = "[Category ''ring'', AmountRange 100 1000, DateRange 1 10, PaymentMethod ''Cash'', Tags ''gift'']"
  let ?es = "[\<lparr>amount = 500, date = 5, category = ''Rings'', description = [], payment_method = ''Cash'', tags = ''Gold,Gift''\<rparr>,
      \<lparr>amount = 80, date = 9, category = ''Earrings'', description = [], payment_method = ''Card'', tags = ''gift''\<rparr>]"
  have h: "\<forall>f \<in> set ?fs. plain f" by (simp add: regex_special_def)
  have c: "ci_substring ''ring'' ''Rings''" "ci_substring ''gift'' ''Gold,Gift''"
    by (simp_all add: ci_substring_def ascii_lower_def sublist_code(3))
  have "filter (\<lambda>e. \<forall>f \<in> set ?fs. satisfies f e) ?es
          = [\<lparr>amount = 500, date = 5, category = ''Rings'', description = [], payment_method = ''Cash'', tags = ''Gold,Gift''\<rparr>]"
    using c by simp
  then show ?thesis
    using view_returns_matching_records[OF h, of "\<lambda>by df. df" ?es] by simp
qed

text \<open>
  Claim C5 as stated fails in both versions. In the terminal version the category filter
  \<open>ring\<close> does not select an expense of category \<open>Rings\<close>, which contains it regardless
  of case. In the browser version the category filter is a regular expression: the filter
  \<open>.\<close> selects an expense of category \<open>Rings\<close>, which contains no dot.
\<close>

theorem view_category_filter_counterexample:
  "view_expenses_terminal (\<lambda>by df. df) (Some [entry (Category ''ring'')]) None
     [\<lparr>amount = 500, date = 5, category = ''Rings'', description = [], payment_method = ''Cash'', tags = []\<rparr>]
   = Inr []
 \<and> satisfies (Category ''ring'')
     \<lparr>amount = 500, date = 5, category = ''Rings'', description = [], payment_method = ''Cash'', tags = []\<rparr>
 \<and> view_expenses (\<lambda>by df. df) (Some [entry (Category ''.'')]) None
     [\<lparr>amount = 500, date = 5, category = ''Rings'', description = [], payment_method = ''Cash'', tags = []\<rparr>]
   = Inr [\<lparr>amount = 500, date = 5, category = ''Rings'', description = [], payment_method = ''Cash'', tags = []\<rparr>]
 \<and> \<not> satisfies (Category ''.'')
     \<lparr>amount = 500, date = 5, category = ''Rings'', description = [], payment_method = ''Cash'', tags = []\<rparr>"
proof -
  have 1: "ci_substring ''ring'' ''Rings''"
    by (simp add: ci_substring_def ascii_lower_def sublist_code(3))
  have 2: "\<not> ci_substring ''.'' ''Rings''"
    by (simp add: ci_substring_def ascii_lower_def sublist_code(3))
  show ?thesis
    using 1 2 by (simp add: view_expenses_def view_expenses_terminal_def sort_view_def)
qed

subsection \<open>Unknown keys\<close>

text \<open>
  Claim C9, as the code has it. A filter key that is not one of the five supported names
  is ignored, whatever its value and wherever it stands in the dictionary: the view equals
  the view without that entry, in both versions. A non-empty sort key that names no column
  is not ignored: whenever the view without a sort key succeeds, the view with that sort
  key raises \<open>KeyError\<close>.
\<close>

theorem unknown_filter_key_ignored_unknown_sort_key_raises:
  "(key \<notin> set filter_keys \<longrightarrow>
      view_expenses sort_values (Some (fs1 @ (key, value) # fs2)) sort_by expenses
        = view_expenses sort_values (Some (fs1 @ fs2)) sort_by expenses
    \<and> view_expenses_terminal sort_values (Some (fs1 @ (key, value) # fs2)) sort_by expenses
        = view_expenses_terminal sort_values (Some (fs1 @ fs2)) sort_by expenses)
 \<and> (by \<noteq> [] \<and> by \<notin> set expense_columns \<longrightarrow>
      (\<forall>v. view_expenses sort_values filters None expenses = Inr v \<longrightarrow>
            view_expenses sort_values filters (Some by) expenses = Inl KeyError)
    \<and> (\<forall>v. view_expenses_terminal sort_values filters None expenses = Inr v \<longrightarrow>
            view_expenses_terminal sort_values filters (Some by) expenses = Inl KeyError))"
proof -
  have a: "view_expenses sort_values (Some (fs1 @ (key, value) # fs2)) sort_by expenses
             = view_expenses sort_values (Some (fs1 @ fs2)) sort_by expenses"
    and b: "view_expenses_terminal sort_values (Some (fs1 @ (key, value) # fs2)) sort_by expenses
             = view_expenses_terminal sort_values (Some (fs1 @ fs2)) sort_by expenses"
    if "key \<notin> set filter_keys"
    by (simp_all add: view_expenses_def view_expenses_terminal_def apply_filters_skip_unknown[OF that])
  have c: "view_expenses sort_values filters (Some by) expenses = Inl KeyError"
    if "by \<noteq> []" "by \<notin> set expense_columns"
       "view_expenses sort_values filters None expenses = Inr v" for v
    using that by (auto simp: view_expenses_def sort_view_def split: sum.splits option.splits)
  have d: "view_expenses_terminal sort_values filters (Some by) expenses = Inl KeyError"
    if "by \<noteq> []" "by \<notin> set expense_columns"
       "view_expenses_terminal sort_values filters None expenses = Inr v" for v
    using that by (auto simp: view_expenses_terminal_def sort_view_def split: sum.splits option.splits)
  show ?thesis using a b c d by blast
qed

theorem unknown_filter_key_ignored_unknown_sort_key_raises_witness:
  "view_expenses (\<lambda>by df. df)
     (Some [(''colour'', PStr ''red''), (''payment_method'', PStr ''Cash'')]) None
     [\<lparr>amount = 500, date = 5, category = ''Rings'', description = [], payment_method = ''Cash'', tags = ''Gold,Gift''\<rparr>,
      \<lparr>amount = 80, date = 9, category = ''Packaging'', description = [], payment_method = ''Card'', tags = []\<rparr>]
   = Inr [\<lparr>amount = 500, date = 5, category = ''Rings'', description = [], payment_method = ''Cash'', tags = ''Gold,Gift''\<rparr>]
 \<and> view_expenses (\<lambda>by df. df) None (Some ''priority'')
     [\<lparr>amount = 500, date = 5, category = ''Rings'', description = [], payment_method = ''Cash'', tags = ''Gold,Gift''\<rparr>,
      \<lparr>amount = 80, date = 9, category = ''Packaging'', description = [], payment_method = ''Card'', tags = []\<rparr>]
   = Inl KeyError"
proof -
  let ?es = "[\<lparr>amount = 500, date = 5, category = ''Rings'', description = [], payment_method = ''Cash'', tags = ''Gold,Gift''\<rparr>,
      \<lparr>amount = 80, date = 9, category = ''Packaging'', description = [], payment_method = ''Card'', tags = []\<rparr>]"
  have k: "''colour'' \<notin> set filter_keys" by (simp add: filter_keys_def)
  have s: "''priority'' \<noteq> [] \<and> ''priority'' \<notin> set expense_columns"
    by (simp add: expense_columns_def)
  have n: "view_expenses (\<lambda>by df. df) None None ?es = Inr ?es"
    by (simp add: view_expenses_def sort_view_def)
  have 1: "view_expenses (\<lambda>by df. df) (Some ([] @ (''colour'', PStr ''red'') # [(''payment_method'', PStr ''Cash'')])) None ?es
         = view_expenses (\<lambda>by df. df) (Some ([] @ [(''payment_method'', PStr ''Cash'')])) None ?es"
    using unknown_filter_key_ignored_unknown_sort_key_raises
      [of "''colour''" "\<lambda>by df. df" "[]" "PStr ''red''" "[(''payment_method'', PStr ''Cash'')]" None ?es]
      k by blast
  have 2: "view_expenses (\<lambda>by df. df) None (Some ''priority'') ?es = Inl KeyError"
    using unknown_filter_key_ignored_unknown_sort_key_raises
      [of _ "\<lambda>by df. df" _ _ _ _ ?es "''priority''" None]
      s n by blast
  have 3: "view_expenses (\<lambda>by df. df) (Some [(''payment_method'', PStr ''Cash'')]) None ?es
         = Inr [\<lparr>amount = 500, date = 5, category = ''Rings'', description = [], payment_method = ''Cash'', tags = ''Gold,Gift''\<rparr>]"
    by (simp add: view_expenses_def sort_view_def)
  show ?thesis using 1 2 3 by simp
qed

text \<open>
  Claim C9 as stated fails for the sort key: sorting by \<open>priority\<close>, which is no column,
  raises \<open>KeyError\<close>, while the same view without a sort key returns the store.
\<close>

theorem unknown_sort_key_counterexample:
  "view_expenses (\<lambda>by df. df) None (Some ''priority'')
     [\<lparr>amount = 500, date = 5, category = ''Rings'', description = [], payment_method = ''Cash'', tags = ''Gold,Gift''\<rparr>]
   = Inl KeyError
 \<and> view_expenses (\<lambda>by df. df) None None
     [\<lparr>amount = 500, date = 5, category = ''Rings'', description = [], payment_method = ''Cash'', tags = ''Gold,Gift''\<rparr>]
   = Inr [\<lparr>amount = 500, date = 5, category = ''Rings'', description = [], payment_method = ''Cash'', tags = ''Gold,Gift''\<rparr>]
 \<and> ''priority'' \<notin> set expense_columns"
  by (simp add: view_expenses_def sort_view_def expense_columns_def)

end
